theory Spec2Isabelle
  imports Complex_Main "HOL-Library.Stream"
begin

section \<open>Football match simulation: physics engine, set pieces, match simulator\<close>

text \<open>
  A shallow embedding of \<^verbatim>\<open>src/football_simulation.py\<close>.

  Modelling conventions.
  \<^item> A coordinate pair \<^verbatim>\<open>[x, y]\<close> is a pair of reals. NumPy's float64 arithmetic is
    modelled by exact real arithmetic: rounding, NaN and infinities are outside the model.
  \<^item> The string constants of the game state (\<^verbatim>\<open>"OPEN_PLAY"\<close>, \<^verbatim>\<open>"CORNER"\<close>,
    \<^verbatim>\<open>"GOAL_KICK"\<close>, \<^verbatim>\<open>"THROW_IN"\<close>) and of the event result are datatypes; the action
    and the player's role stay strings, as the code compares them with string literals.
  \<^item> The process-wide generator behind \<^verbatim>\<open>np.random\<close> is an explicit stream of draws
    from the unit interval that every function using it takes and returns.
  \<^item> The simulator holds references to two team objects; the model stores both teams in
    the simulator record and represents a reference by \<open>HomeTeam\<close> or \<open>AwayTeam\<close>, so that
    passing the same team object twice to \<^verbatim>\<open>resolve_set_piece\<close> updates one team twice.
    The two teams are distinct objects that share no player object.
\<close>

subsection \<open>Vectors\<close>

type_synonym point = "real \<times> real"

fun vsub :: "point \<Rightarrow> point \<Rightarrow> point" where
  "vsub (x1, y1) (x2, y2) = (x1 - x2, y1 - y2)"

fun vadd :: "point \<Rightarrow> point \<Rightarrow> point" where
  "vadd (x1, y1) (x2, y2) = (x1 + x2, y1 + y2)"

fun vscale :: "real \<Rightarrow> point \<Rightarrow> point" where
  "vscale t (x, y) = (t * x, t * y)"

fun dot :: "point \<Rightarrow> point \<Rightarrow> real" where
  "dot (x1, y1) (x2, y2) = x1 * x2 + y1 * y2"

text \<open>\<^verbatim>\<open>np.sum(v**2)\<close>\<close>

fun sum_sq :: "point \<Rightarrow> real" where
  "sum_sq (x, y) = x\<^sup>2 + y\<^sup>2"

text \<open>\<^verbatim>\<open>np.clip(t, lo, hi)\<close>\<close>

definition clip :: "real \<Rightarrow> real \<Rightarrow> real \<Rightarrow> real" where
  "clip t lo hi = min (max t lo) hi"

subsection \<open>Entities\<close>

record player =
  name :: string
  position :: point
  position_role :: string
  interception_stat :: real

record team =
  team_name :: string
  players :: "player list"

datatype game_state = OPEN_PLAY | CORNER | GOAL_KICK | THROW_IN

datatype result = SUCCESS | INTERCEPTED | SHOT | DRIBBLE

datatype team_ref = HomeTeam | AwayTeam

record event =
  action :: string
  ball_pos_before :: point
  possession_before :: string
  event_game_state :: game_state
  result :: "result option"
  interceptor :: "string option"
  set_piece :: "game_state option"
  ball_pos_after :: point
  possession_after :: string

record match_simulator =
  home_team :: team
  away_team :: team
  ball :: point
  possession_team :: team_ref
  game_state :: game_state
  events :: "event list"

datatype error = AttributeError

subsection \<open>The random source\<close>

text \<open>
  \<^verbatim>\<open>np.random.random()\<close> returns the next draw, a float of the half-open interval
  \<open>[0, 1)\<close>; \<^verbatim>\<open>np.random.uniform(lo, hi)\<close> scales the next draw to \<open>lo + (hi - lo) * u\<close>.
\<close>

type_synonym rng = "real stream"

definition valid_rng :: "rng \<Rightarrow> bool" where
  "valid_rng g = (\<forall>u \<in> sset g. 0 \<le> u \<and> u < 1)"

definition random :: "rng \<Rightarrow> real \<times> rng" where
  "random g = (shd g, stl g)"

definition uniform :: "real \<Rightarrow> real \<Rightarrow> rng \<Rightarrow> real \<times> rng" where
  "uniform lo hi g = (lo + (hi - lo) * shd g, stl g)"

subsection \<open>PhysicsEngine\<close>

definition get_distance_point_to_segment :: "point \<Rightarrow> point \<Rightarrow> point \<Rightarrow> real" where
  "get_distance_point_to_segment p a b =
     (let ab = vsub b a;
          ap = vsub p a;
          len_sq = sum_sq ab
      in if len_sq = 0 then sqrt (sum_sq (vsub p a))
         else let t = dot ap ab / len_sq;
                  t = clip t 0 1;
                  closest = vadd a (vscale t ab)
              in sqrt (sum_sq (vsub p closest)))"

fun check_interception ::
  "point \<Rightarrow> point \<Rightarrow> player list \<Rightarrow> real \<Rightarrow> bool \<times> player option" where
  "check_interception a b [] interception_radius = (False, None)"
| "check_interception a b (defender # defenders) interception_radius =
     (if get_distance_point_to_segment (position defender) a b < interception_radius
      then (True, Some defender)
      else check_interception a b defenders interception_radius)"

subsection \<open>SetPieceManager\<close>

definition check_boundaries :: "real \<Rightarrow> real \<Rightarrow> rng \<Rightarrow> game_state \<times> rng" where
  "check_boundaries ball_x ball_y g =
     (if 0 \<le> ball_x \<and> ball_x \<le> 105 \<and> 0 \<le> ball_y \<and> ball_y \<le> 68 then (OPEN_PLAY, g)
      else if ball_x > 105 then
        (case random g of (u, g') \<Rightarrow> (if u > 0.5 then CORNER else GOAL_KICK, g'))
      else if ball_x < 0 then (CORNER, g)
      else (THROW_IN, g))"

text \<open>The first loop of the corner branch: every attacker but the goalkeeper is scrambled.\<close>

fun scramble_attackers :: "player list \<Rightarrow> rng \<Rightarrow> player list \<times> rng" where
  "scramble_attackers [] g = ([], g)"
| "scramble_attackers (p # ps) g =
     (if position_role p \<noteq> ''GK'' then
        (case uniform 95 104 g of (x, g1) \<Rightarrow>
         case uniform 20 48 g1 of (y, g2) \<Rightarrow>
         case scramble_attackers ps g2 of (ps', g3) \<Rightarrow>
           (p\<lparr>position := (x, y)\<rparr> # ps', g3))
      else
        (case scramble_attackers ps g of (ps', g') \<Rightarrow> (p # ps', g')))"

text \<open>The second loop: the defending goalkeeper goes on the line, the others are scrambled.\<close>

fun scramble_defenders :: "player list \<Rightarrow> rng \<Rightarrow> player list \<times> rng" where
  "scramble_defenders [] g = ([], g)"
| "scramble_defenders (p # ps) g =
     (if position_role p = ''GK'' then
        (case scramble_defenders ps g of (ps', g') \<Rightarrow>
           (p\<lparr>position := (104, 34)\<rparr> # ps', g'))
      else
        (case uniform 95 104 g of (x, g1) \<Rightarrow>
         case uniform 20 48 g1 of (y, g2) \<Rightarrow>
         case scramble_defenders ps g2 of (ps', g3) \<Rightarrow>
           (p\<lparr>position := (x, y)\<rparr> # ps', g3)))"

definition team_of :: "match_simulator \<Rightarrow> team_ref \<Rightarrow> team" where
  "team_of s r = (case r of HomeTeam \<Rightarrow> home_team s | AwayTeam \<Rightarrow> away_team s)"

definition set_players :: "match_simulator \<Rightarrow> team_ref \<Rightarrow> player list \<Rightarrow> match_simulator" where
  "set_players s r ps =
     (case r of
        HomeTeam \<Rightarrow> s\<lparr>home_team := (home_team s)\<lparr>players := ps\<rparr>\<rparr>
      | AwayTeam \<Rightarrow> s\<lparr>away_team := (away_team s)\<lparr>players := ps\<rparr>\<rparr>)"

text \<open>
  \<open>resolve_set_piece\<close> returns the new ball position, the simulator with the players it
  moved, and the generator. The position it starts from, \<^verbatim>\<open>[0, 0]\<close>, is what it returns
  for a state that is neither \<open>CORNER\<close> nor \<open>GOAL_KICK\<close>.
\<close>

definition resolve_set_piece ::
  "game_state \<Rightarrow> team_ref \<Rightarrow> team_ref \<Rightarrow> match_simulator \<Rightarrow> rng
     \<Rightarrow> point \<times> match_simulator \<times> rng" where
  "resolve_set_piece state attacking_team defending_team s g =
     (if state = CORNER then
        (case random g of (u, g1) \<Rightarrow>
         let corner_side = (if u < 0.5 then 0 else 68);
             ball_pos = (105, corner_side)
         in case scramble_attackers (players (team_of s attacking_team)) g1 of (aps, g2) \<Rightarrow>
            let s1 = set_players s attacking_team aps
            in case scramble_defenders (players (team_of s1 defending_team)) g2 of (dps, g3) \<Rightarrow>
               (ball_pos, set_players s1 defending_team dps, g3))
      else if state = GOAL_KICK then ((5, 34), s, g)
      else ((0, 0), s, g))"

subsection \<open>MatchSimulator\<close>

definition MatchSimulator :: "team \<Rightarrow> team \<Rightarrow> match_simulator" where
  "MatchSimulator home away =
     \<lparr>home_team = home, away_team = away, ball = (52.5, 34.0), possession_team = HomeTeam,
      game_state = OPEN_PLAY, events = []\<rparr>"

text \<open>
  \<^verbatim>\<open>self.away_team if self.possession_team == self.home_team else self.home_team\<close>:
  the comparison of the two dataclass objects is by value.
\<close>

definition defending_team_of :: "match_simulator \<Rightarrow> team_ref" where
  "defending_team_of s =
     (if team_of s (possession_team s) = home_team s then AwayTeam else HomeTeam)"

text \<open>
  The action handling of \<open>simulate_step\<close>: the simulator after the action, the event's
  result and the interceptor's name. Reading \<^verbatim>\<open>defender.name\<close> of no defender is the
  only place that could raise.
\<close>

definition handle_action ::
  "match_simulator \<Rightarrow> team_ref \<Rightarrow> string \<Rightarrow> point option
     \<Rightarrow> error + (match_simulator \<times> result option \<times> string option)" where
  "handle_action s defending_team act target_pos =
     (if act = ''PASS'' \<and> target_pos \<noteq> None then
        (case check_interception (ball s) (the target_pos)
                (players (team_of s defending_team)) 2 of
           (intercepted, defender) \<Rightarrow>
             if intercepted then
               (case defender of
                  None \<Rightarrow> Inl AttributeError
                | Some d \<Rightarrow>
                    Inr (s\<lparr>possession_team := defending_team, ball := position d\<rparr>,
                         Some INTERCEPTED, Some (name d)))
             else Inr (s\<lparr>ball := the target_pos\<rparr>, Some SUCCESS, None))
      else if act = ''SHOOT'' \<and> target_pos \<noteq> None then
        Inr (s\<lparr>ball := the target_pos\<rparr>, Some SHOT, None)
      else if act = ''DRIBBLE'' \<and> target_pos \<noteq> None then
        Inr (s\<lparr>ball := the target_pos\<rparr>, Some DRIBBLE, None)
      else Inr (s, None, None))"

text \<open>The boundary check of \<open>simulate_step\<close>, on the simulator after the action.\<close>

definition boundary_check ::
  "match_simulator \<Rightarrow> team_ref \<Rightarrow> rng \<Rightarrow> match_simulator \<times> rng \<times> game_state option" where
  "boundary_check s1 defending_team g =
     (case check_boundaries (fst (ball s1)) (snd (ball s1)) g of (new_state, g1) \<Rightarrow>
        if new_state \<noteq> OPEN_PLAY then
          (case resolve_set_piece new_state (possession_team s1) defending_team s1 g1 of
             (ball_pos, s2, g2) \<Rightarrow>
               (s2\<lparr>ball := ball_pos, game_state := new_state\<rparr>, g2, Some new_state))
        else (s1\<lparr>game_state := OPEN_PLAY\<rparr>, g1, None))"

definition simulate_step ::
  "match_simulator \<Rightarrow> rng \<Rightarrow> string \<Rightarrow> point option
     \<Rightarrow> error + (event \<times> match_simulator \<times> rng)" where
  "simulate_step s g act target_pos =
     (let defending_team = defending_team_of s
      in case handle_action s defending_team act target_pos of
           Inl e \<Rightarrow> Inl e
         | Inr (s1, res, icp) \<Rightarrow>
             (case boundary_check s1 defending_team g of (s3, g3, sp) \<Rightarrow>
                let ev = \<lparr>action = act,
                          ball_pos_before = ball s,
                          possession_before = team_name (team_of s (possession_team s)),
                          event_game_state = game_state s,
                          result = res,
                          interceptor = icp,
                          set_piece = sp,
                          ball_pos_after = ball s3,
                          possession_after = team_name (team_of s3 (possession_team s3))\<rparr>
                in Inr (ev, s3\<lparr>events := events s3 @ [ev]\<rparr>, g3)))"

definition get_training_data :: "match_simulator \<Rightarrow> event list" where
  "get_training_data s = events s"

definition reset :: "match_simulator \<Rightarrow> match_simulator" where
  "reset s = s\<lparr>ball := (52.5, 34.0), possession_team := HomeTeam,
               game_state := OPEN_PLAY, events := []\<rparr>"

subsection \<open>Notions of plane geometry\<close>

text \<open>
  The Euclidean distance, the point of the segment at parameter \<open>t\<close>, the cross product,
  and the parameter of the point that \<open>get_distance_point_to_segment\<close> measures to.
\<close>

definition euclid :: "point \<Rightarrow> point \<Rightarrow> real" where
  "euclid p q = sqrt (sum_sq (vsub p q))"

definition seg_point :: "point \<Rightarrow> point \<Rightarrow> real \<Rightarrow> point" where
  "seg_point a b t = vadd a (vscale t (vsub b a))"

fun cross :: "point \<Rightarrow> point \<Rightarrow> real" where
  "cross (x1, y1) (x2, y2) = x1 * y2 - y1 * x2"

definition closest_param :: "point \<Rightarrow> point \<Rightarrow> point \<Rightarrow> real" where
  "closest_param p a b =
     (if sum_sq (vsub b a) = 0 then 0
      else clip (dot (vsub p a) (vsub b a) / sum_sq (vsub b a)) 0 1)"

subsection \<open>Notions of the simulator\<close>

text \<open>
  The pitch as \<open>check_boundaries\<close> tests it, the event and the simulator that a step
  returns, and the simulators that construction, steps and resets reach.
\<close>

definition in_play :: "point \<Rightarrow> bool" where
  "in_play p = (0 \<le> fst p \<and> fst p \<le> 105 \<and> 0 \<le> snd p \<and> snd p \<le> 68)"

text \<open>The goalmouth box that a corner scrambles the players into.\<close>

definition in_box :: "point \<Rightarrow> bool" where
  "in_box p = (95 \<le> fst p \<and> fst p \<le> 104 \<and> 20 \<le> snd p \<and> snd p \<le> 48)"

definition event_of :: "error + (event \<times> match_simulator \<times> rng) \<Rightarrow> event" where
  "event_of r = fst (projr r)"

definition simulator_of :: "error + (event \<times> match_simulator \<times> rng) \<Rightarrow> match_simulator" where
  "simulator_of r = fst (snd (projr r))"

inductive reachable :: "match_simulator \<Rightarrow> bool" where
  init: "reachable (MatchSimulator home away)"
| step: "reachable s \<Longrightarrow> simulate_step s g act target_pos = Inr (ev, s', g') \<Longrightarrow> reachable s'"
| reset: "reachable s \<Longrightarrow> reachable (reset s)"

subsection \<open>Scenarios\<close>

text \<open>Players and simulators of the unit tests and the demonstration, used as concrete inputs.\<close>

definition far_defender :: player where
  "far_defender = \<lparr>name = ''Far_Defender'', position = (5, 10), position_role = ''DEF'', interception_stat = 0.5\<rparr>"
definition edge_defender :: player where
  "edge_defender = \<lparr>name = ''Edge_Defender'', position = (5, 2), position_role = ''DEF'', interception_stat = 0.5\<rparr>"
definition close_defender :: player where
  "close_defender = \<lparr>name = ''Close_Defender'', position = (5, 0.5), position_role = ''DEF'', interception_stat = 0.5\<rparr>"
definition second_defender :: player where
  "second_defender = \<lparr>name = ''Second_Defender'', position = (6, 0), position_role = ''DEF'', interception_stat = 0.5\<rparr>"

definition test_home :: team where
  "test_home = \<lparr>team_name = ''Home'', players =
     [\<lparr>name = ''Attacker'', position = (40, 34), position_role = ''FWD'', interception_stat = 0.5\<rparr>]\<rparr>"

definition test_away :: team where
  "test_away = \<lparr>team_name = ''Away'', players =
     [\<lparr>name = ''Defender'', position = (52, 34), position_role = ''DEF'', interception_stat = 0.5\<rparr>]\<rparr>"

definition test_simulator :: match_simulator where
  "test_simulator = (MatchSimulator test_home test_away)\<lparr>ball := (40, 34)\<rparr>"

definition empty_away :: team where
  "empty_away = \<lparr>team_name = ''Away'', players = []\<rparr>"

definition unopposed_simulator :: match_simulator where
  "unopposed_simulator = (MatchSimulator test_home empty_away)\<lparr>ball := (40, 34)\<rparr>"

definition staged_simulator :: match_simulator where
  "staged_simulator = test_simulator\<lparr>ball := (-5, 34)\<rparr>"

definition corner_home :: team where
  "corner_home = \<lparr>team_name = ''Home'', players =
     [\<lparr>name = ''Home_GK'', position = (5, 34), position_role = ''GK'', interception_stat = 0.5\<rparr>,
      \<lparr>name = ''Home_P1'', position = (60, 30), position_role = ''FWD'', interception_stat = 0.5\<rparr>]\<rparr>"

definition corner_away :: team where
  "corner_away = \<lparr>team_name = ''Away'', players =
     [\<lparr>name = ''Away_GK'', position = (100, 34), position_role = ''GK'', interception_stat = 0.5\<rparr>,
      \<lparr>name = ''Away_P1'', position = (80, 40), position_role = ''DEF'', interception_stat = 0.5\<rparr>]\<rparr>"

definition corner_simulator :: match_simulator where
  "corner_simulator = (MatchSimulator corner_home corner_away)\<lparr>ball := (100, 34)\<rparr>"

definition sweeper_away :: team where
  "sweeper_away = \<lparr>team_name = ''Away'', players =
     [\<lparr>name = ''Away_GK'', position = (100, 34), position_role = ''GK'', interception_stat = 0.5\<rparr>,
      \<lparr>name = ''Sweeper'', position = (-1, 34), position_role = ''DEF'', interception_stat = 0.5\<rparr>]\<rparr>"

definition sweeper_simulator :: match_simulator where
  "sweeper_simulator = (MatchSimulator corner_home sweeper_away)\<lparr>ball := (40, 34)\<rparr>"

section \<open>Pass interception\<close>

text \<open>The scan is a search for the first defender within the radius.\<close>

lemma check_interception_find:
  "check_interception a b ds r =
     (case find (\<lambda>d. get_distance_point_to_segment (position d) a b < r) ds of
        None \<Rightarrow> (False, None) | Some d \<Rightarrow> (True, Some d))"
  by (induction ds) simp_all

text \<open>
  Claim C2. For every pass segment, roster of defenders and radius, \<open>check_interception\<close>
  reports an interception exactly when some defender's distance to the segment is
  strictly below the radius; the interceptor it returns is the first such defender in
  roster order (\<open>find\<close>, and spelled out by index), and is absent exactly when nothing
  is intercepted. A defender whose distance equals the radius does not intercept.
\<close>

theorem check_interception_first_in_roster:
  "fst (check_interception a b defenders r) =
     (\<exists>d \<in> set defenders. get_distance_point_to_segment (position d) a b < r)
   \<and> snd (check_interception a b defenders r) =
       find (\<lambda>d. get_distance_point_to_segment (position d) a b < r) defenders
   \<and> (\<forall>d. snd (check_interception a b defenders r) = Some d \<longleftrightarrow>
         (\<exists>i < length defenders. defenders ! i = d
            \<and> get_distance_point_to_segment (position d) a b < r
            \<and> (\<forall>j < i. \<not> get_distance_point_to_segment (position (defenders ! j)) a b < r)))
   \<and> fst (check_interception a b defenders r) = (snd (check_interception a b defenders r) \<noteq> None)
   \<and> \<not> fst (check_interception a b [d0] (get_distance_point_to_segment (position d0) a b))"
proof -
  let ?P = "\<lambda>d. get_distance_point_to_segment (position d) a b < r"
  have snd_eq: "snd (check_interception a b defenders r) = find ?P defenders"
    by (simp add: check_interception_find split: option.splits)
  have fst_eq: "fst (check_interception a b defenders r) = (find ?P defenders \<noteq> None)"
    by (simp add: check_interception_find split: option.splits)
  have ex: "(find ?P defenders \<noteq> None) = (\<exists>d \<in> set defenders. ?P d)"
    by (auto simp: find_None_iff)
  have idx: "\<forall>d. find ?P defenders = Some d \<longleftrightarrow>
         (\<exists>i < length defenders. defenders ! i = d \<and> ?P d
            \<and> (\<forall>j < i. \<not> ?P (defenders ! j)))"
    by (auto simp: find_Some_iff)
  show ?thesis
    using snd_eq fst_eq ex idx by simp
qed

theorem check_interception_first_in_roster_witness:
  "check_interception (0, 0) (10, 0) [far_defender, edge_defender, close_defender, second_defender] 2
     = (True, Some close_defender)
   \<and> get_distance_point_to_segment (position edge_defender) (0, 0) (10, 0) = 2
   \<and> get_distance_point_to_segment (position second_defender) (0, 0) (10, 0) < 2
   \<and> check_interception (0, 0) (10, 0) [far_defender, edge_defender] 2 = (False, None)"
proof -
  have d1: "get_distance_point_to_segment (position far_defender) (0, 0) (10, 0) = 10"
    by (simp add: far_defender_def get_distance_point_to_segment_def clip_def)
  have d2: "get_distance_point_to_segment (position edge_defender) (0, 0) (10, 0) = 2"
    by (simp add: edge_defender_def get_distance_point_to_segment_def clip_def)
  have d3: "get_distance_point_to_segment (position close_defender) (0, 0) (10, 0) = 1/2"
    by (simp add: close_defender_def get_distance_point_to_segment_def clip_def real_sqrt_divide)
  have d4: "get_distance_point_to_segment (position second_defender) (0, 0) (10, 0) = 0"
    by (simp add: second_defender_def get_distance_point_to_segment_def clip_def)
  note t1 = check_interception_first_in_roster
    [of "(0, 0)" "(10, 0)" "[far_defender, edge_defender, close_defender, second_defender]" 2]
  note t2 = check_interception_first_in_roster
    [of "(0, 0)" "(10, 0)" "[far_defender, edge_defender]" 2]
  have a: "snd (check_interception (0, 0) (10, 0)
       [far_defender, edge_defender, close_defender, second_defender] 2) = Some close_defender"
    using t1 [THEN conjunct2, THEN conjunct1] by (simp add: d1 d2 d3 d4)
  have b: "fst (check_interception (0, 0) (10, 0)
       [far_defender, edge_defender, close_defender, second_defender] 2)"
    using t1 [THEN conjunct2, THEN conjunct2, THEN conjunct2, THEN conjunct1] a
    by (simp only: option.distinct not_False_eq_True simp_thms)
  have c: "snd (check_interception (0, 0) (10, 0) [far_defender, edge_defender] 2) = None"
    using t2 [THEN conjunct2, THEN conjunct1] by (simp add: d1 d2)
  have d: "\<not> fst (check_interception (0, 0) (10, 0) [far_defender, edge_defender] 2)"
    using t2 [THEN conjunct2, THEN conjunct2, THEN conjunct2, THEN conjunct1] c
    by (simp only: simp_thms)
  show ?thesis
    using a b c d d2 d4 by (simp add: prod_eq_iff)
qed

section \<open>Boundary classification\<close>

text \<open>
  Claim C3. \<open>check_boundaries\<close> answers \<open>OPEN_PLAY\<close> exactly on the closed rectangle
  \<open>0 \<le> x \<le> 105\<close>, \<open>0 \<le> y \<le> 68\<close>; \<open>CORNER\<close> whenever \<open>x < 0\<close>; \<open>THROW_IN\<close> whenever
  \<open>x\<close> is in range and \<open>y\<close> is not; and for \<open>x > 105\<close> it answers \<open>CORNER\<close> or
  \<open>GOAL_KICK\<close> as the next random draw is above one half or not, consuming that draw.
\<close>

theorem check_boundaries_classification:
  "(fst (check_boundaries x y g) = OPEN_PLAY \<longleftrightarrow> 0 \<le> x \<and> x \<le> 105 \<and> 0 \<le> y \<and> y \<le> 68)
   \<and> (x < 0 \<longrightarrow> check_boundaries x y g = (CORNER, g))
   \<and> (0 \<le> x \<and> x \<le> 105 \<and> (y < 0 \<or> 68 < y) \<longrightarrow> check_boundaries x y g = (THROW_IN, g))
   \<and> (105 < x \<longrightarrow>
        (fst (check_boundaries x y g) = CORNER \<or> fst (check_boundaries x y g) = GOAL_KICK)
        \<and> (fst (check_boundaries x y g) = CORNER \<longleftrightarrow> shd g > 1/2)
        \<and> (fst (check_boundaries x y g) = GOAL_KICK \<longleftrightarrow> shd g \<le> 1/2)
        \<and> snd (check_boundaries x y g) = stl g)"
  by (auto simp: check_boundaries_def random_def)

theorem check_boundaries_classification_witness:
  "check_boundaries 0 0 (sconst (1/4)) = (OPEN_PLAY, sconst (1/4))
   \<and> check_boundaries 105 68 (sconst (1/4)) = (OPEN_PLAY, sconst (1/4))
   \<and> check_boundaries (-5) 34 (sconst (1/4)) = (CORNER, sconst (1/4))
   \<and> check_boundaries 50 75 (sconst (1/4)) = (THROW_IN, sconst (1/4))
   \<and> check_boundaries 50 (-1) (sconst (1/4)) = (THROW_IN, sconst (1/4))
   \<and> check_boundaries 110 34 (sconst (1/4)) = (GOAL_KICK, sconst (1/4))
   \<and> check_boundaries 110 34 (sconst (3/4)) = (CORNER, sconst (3/4))"
proof -
  have "fst (check_boundaries 0 0 (sconst (1/4))) = OPEN_PLAY"
    using check_boundaries_classification [of 0 0 "sconst (1/4)"] by simp
  moreover have "fst (check_boundaries 105 68 (sconst (1/4))) = OPEN_PLAY"
    using check_boundaries_classification [of 105 68 "sconst (1/4)"] by simp
  moreover have "check_boundaries (-5) 34 (sconst (1/4)) = (CORNER, sconst (1/4))"
    using check_boundaries_classification [of "-5" 34 "sconst (1/4)"] by simp
  moreover have "check_boundaries 50 75 (sconst (1/4)) = (THROW_IN, sconst (1/4))"
    using check_boundaries_classification [of 50 75 "sconst (1/4)"] by simp
  moreover have "check_boundaries 50 (-1) (sconst (1/4)) = (THROW_IN, sconst (1/4))"
    using check_boundaries_classification [of 50 "-1" "sconst (1/4)"] by simp
  moreover have "fst (check_boundaries 110 34 (sconst (1/4))) = GOAL_KICK
      \<and> snd (check_boundaries 110 34 (sconst (1/4))) = sconst (1/4)"
    using check_boundaries_classification [of 110 34 "sconst (1/4)"] by simp
  moreover have "fst (check_boundaries 110 34 (sconst (3/4))) = CORNER
      \<and> snd (check_boundaries 110 34 (sconst (3/4))) = sconst (3/4)"
    using check_boundaries_classification [of 110 34 "sconst (3/4)"] by simp
  ultimately show ?thesis
    by (simp add: prod_eq_iff check_boundaries_def)
qed

section \<open>Distance from a point to a segment\<close>

lemma sum_sq_nonneg: "0 \<le> sum_sq v"
  by (cases v) simp

lemma sum_sq_zero_iff: "sum_sq (vsub b a) = 0 \<longleftrightarrow> a = b"
  by (cases a; cases b) (auto simp: sum_power2_eq_zero_iff)

lemma seg_point_degenerate: "seg_point a a t = a"
  by (cases a) (simp add: seg_point_def)

lemma seg_point_ends: "seg_point a b 0 = a" "seg_point a b 1 = b"
  by (cases a; cases b; simp add: seg_point_def)+

lemma sq_dist_param:
  "sum_sq (vsub p (seg_point a b t)) =
     sum_sq (vsub p a) - 2 * t * dot (vsub p a) (vsub b a) + t\<^sup>2 * sum_sq (vsub b a)"
  by (cases p; cases a; cases b) (simp add: seg_point_def power2_eq_square algebra_simps)

lemma closest_param_range: "0 \<le> closest_param p a b \<and> closest_param p a b \<le> 1"
  by (simp add: closest_param_def clip_def)

lemma distance_as_param:
  "get_distance_point_to_segment p a b = euclid p (seg_point a b (closest_param p a b))"
proof (cases "sum_sq (vsub b a) = 0")
  case True
  then have "a = b" by (simp add: sum_sq_zero_iff)
  then show ?thesis
    by (simp add: get_distance_point_to_segment_def closest_param_def euclid_def
        seg_point_degenerate sum_sq_zero_iff)
next
  case False
  then show ?thesis
    by (simp add: get_distance_point_to_segment_def closest_param_def euclid_def
        seg_point_def Let_def)
qed

lemma clip_ratio:
  fixes d L :: real
  assumes L: "0 < L"
  shows "d < 0 \<Longrightarrow> clip (d / L) 0 1 = 0"
    and "0 \<le> d \<Longrightarrow> d \<le> L \<Longrightarrow> clip (d / L) 0 1 = d / L"
    and "L < d \<Longrightarrow> clip (d / L) 0 1 = 1"
proof -
  show "clip (d / L) 0 1 = 0" if "d < 0"
  proof -
    have "d / L < 0" using that L by (simp add: divide_neg_pos)
    then show ?thesis by (simp add: clip_def)
  qed
  show "clip (d / L) 0 1 = d / L" if "0 \<le> d" "d \<le> L"
  proof -
    have "0 \<le> d / L" "d / L \<le> 1" using that L by simp_all
    then show ?thesis by (simp add: clip_def)
  qed
  show "clip (d / L) 0 1 = 1" if "L < d"
  proof -
    have "1 < d / L" using that L by simp
    then show ?thesis by (simp add: clip_def)
  qed
qed

lemma quad_min:
  fixes A d L s :: real
  assumes L: "0 < L" and s: "0 \<le> s" "s \<le> 1"
  shows "A - 2 * clip (d / L) 0 1 * d + (clip (d / L) 0 1)\<^sup>2 * L \<le> A - 2 * s * d + s\<^sup>2 * L"
proof -
  consider (low) "d < 0" | (mid) "0 \<le> d" "d \<le> L" | (high) "L < d" by linarith
  then show ?thesis
  proof cases
    case low
    then have c: "clip (d / L) 0 1 = 0"
      using L by (simp add: clip_ratio)
    have "0 \<le> s * L" using s L by simp
    then have "0 \<le> s * L - 2 * d" using low by linarith
    then have "0 \<le> s * (s * L - 2 * d)"
      using s by (intro mult_nonneg_nonneg) auto
    then show ?thesis by (simp add: c power2_eq_square algebra_simps)
  next
    case mid
    then have c: "clip (d / L) 0 1 = d / L"
      using L by (simp add: clip_ratio)
    define e where "e = d / L"
    have eL: "e * L = d" using L by (simp add: e_def)
    have "L * (s - e)\<^sup>2 = s\<^sup>2 * L - 2 * s * (e * L) + e * (e * L)"
      by (simp add: power2_eq_square algebra_simps)
    then have "L * (s - e)\<^sup>2 = s\<^sup>2 * L - 2 * s * d + e * d"
      by (simp only: eL)
    moreover have "0 \<le> L * (s - e)\<^sup>2" using L by simp
    moreover have "e\<^sup>2 * L = e * (e * L)" by (simp add: power2_eq_square)
    then have "e\<^sup>2 * L = e * d" by (simp only: eL)
    ultimately have "A - 2 * e * d + e\<^sup>2 * L \<le> A - 2 * s * d + s\<^sup>2 * L"
      by (simp add: mult.commute)
    then show ?thesis by (simp add: c e_def)
  next
    case high
    then have c: "clip (d / L) 0 1 = 1"
      using L by (simp add: clip_ratio)
    have "L * (s + 1) \<le> L * 2" using L s by (intro mult_left_mono) auto
    then have "L * (s + 1) - 2 * d \<le> 0" using high by linarith
    then have "0 \<le> (s - 1) * (L * (s + 1) - 2 * d)"
      using s by (intro mult_nonpos_nonpos) auto
    then show ?thesis by (simp add: c power2_eq_square algebra_simps)
  qed
qed

lemma distance_minimal:
  assumes "0 \<le> t" "t \<le> 1"
  shows "get_distance_point_to_segment p a b \<le> euclid p (seg_point a b t)"
proof (cases "sum_sq (vsub b a) = 0")
  case True
  then have "a = b" by (simp add: sum_sq_zero_iff)
  then show ?thesis by (simp add: distance_as_param seg_point_degenerate)
next
  case False
  then have L: "0 < sum_sq (vsub b a)"
    using sum_sq_nonneg [of "vsub b a"] by linarith
  have "sum_sq (vsub p (seg_point a b (closest_param p a b)))
          \<le> sum_sq (vsub p (seg_point a b t))"
    unfolding sq_dist_param using quad_min [OF L assms] False
    by (simp add: closest_param_def)
  then show ?thesis
    by (simp add: distance_as_param euclid_def)
qed

lemma distance_on_segment:
  assumes "0 \<le> t" "t \<le> 1"
  shows "get_distance_point_to_segment (seg_point a b t) a b = 0"
proof -
  have "0 \<le> get_distance_point_to_segment (seg_point a b t) a b"
    by (simp add: distance_as_param euclid_def sum_sq_nonneg)
  moreover have "get_distance_point_to_segment (seg_point a b t) a b
      \<le> euclid (seg_point a b t) (seg_point a b t)"
    by (rule distance_minimal [OF assms])
  moreover have "euclid q q = 0" for q
    by (cases q) (simp add: euclid_def)
  ultimately show ?thesis by simp
qed

lemma lagrange:
  "sum_sq u * sum_sq w - (dot w u)\<^sup>2 = (cross u w)\<^sup>2"
  by (cases u; cases w) (simp add: power2_eq_square algebra_simps)

lemma distance_foot_inside:
  assumes ne: "a \<noteq> b"
    and d: "0 \<le> dot (vsub p a) (vsub b a)" "dot (vsub p a) (vsub b a) \<le> sum_sq (vsub b a)"
  shows "closest_param p a b = dot (vsub p a) (vsub b a) / sum_sq (vsub b a)"
    and "get_distance_point_to_segment p a b
           = \<bar>cross (vsub b a) (vsub p a)\<bar> / sqrt (sum_sq (vsub b a))"
    and "dot (vsub p (seg_point a b (closest_param p a b))) (vsub b a) = 0"
proof -
  let ?L = "sum_sq (vsub b a)" and ?d = "dot (vsub p a) (vsub b a)" and ?A = "sum_sq (vsub p a)"
  have L: "0 < ?L"
    using ne sum_sq_nonneg [of "vsub b a"] sum_sq_zero_iff [of b a] by force
  show c: "closest_param p a b = ?d / ?L"
    using L d by (simp add: closest_param_def clip_ratio)
  have "sum_sq (vsub p (seg_point a b (?d / ?L))) = ?A - 2 * (?d / ?L) * ?d + (?d / ?L)\<^sup>2 * ?L"
    by (rule sq_dist_param)
  also have "\<dots> = (?L * ?A - ?d\<^sup>2) / ?L"
    using L by (simp add: power2_eq_square field_simps)
  also have "\<dots> = (cross (vsub b a) (vsub p a))\<^sup>2 / ?L"
    by (simp add: lagrange)
  finally have "get_distance_point_to_segment p a b
      = sqrt ((cross (vsub b a) (vsub p a))\<^sup>2 / ?L)"
    by (simp add: distance_as_param c euclid_def)
  then show "get_distance_point_to_segment p a b
           = \<bar>cross (vsub b a) (vsub p a)\<bar> / sqrt ?L"
    by (simp add: real_sqrt_divide)
  have "dot (vsub p (seg_point a b t)) (vsub b a) = ?d - t * ?L" for t
    by (cases p; cases a; cases b) (simp add: seg_point_def power2_eq_square algebra_simps)
  then show "dot (vsub p (seg_point a b (closest_param p a b))) (vsub b a) = 0"
    using L by (simp add: c)
qed

lemma sq_dist_other_end:
  "sum_sq (vsub p b) = sum_sq (vsub p a) - 2 * dot (vsub p a) (vsub b a) + sum_sq (vsub b a)"
  using sq_dist_param [of p a b 1] by (simp add: seg_point_ends)

lemma distance_before_start:
  assumes ne: "a \<noteq> b" and d: "dot (vsub p a) (vsub b a) < 0"
  shows "get_distance_point_to_segment p a b = euclid p a" and "euclid p a < euclid p b"
proof -
  have L: "0 < sum_sq (vsub b a)"
    using ne sum_sq_nonneg [of "vsub b a"] sum_sq_zero_iff [of b a] by force
  have "closest_param p a b = 0"
    using L d by (simp add: closest_param_def clip_ratio)
  then show "get_distance_point_to_segment p a b = euclid p a"
    by (simp add: distance_as_param seg_point_ends)
  show "euclid p a < euclid p b"
    using L d by (simp add: euclid_def sq_dist_other_end [of p b a])
qed

lemma distance_past_end:
  assumes ne: "a \<noteq> b" and d: "sum_sq (vsub b a) < dot (vsub p a) (vsub b a)"
  shows "get_distance_point_to_segment p a b = euclid p b" and "euclid p b < euclid p a"
proof -
  have L: "0 < sum_sq (vsub b a)"
    using ne sum_sq_nonneg [of "vsub b a"] sum_sq_zero_iff [of b a] by force
  have "closest_param p a b = 1"
    using L d by (simp add: closest_param_def clip_ratio)
  then show "get_distance_point_to_segment p a b = euclid p b"
    by (simp add: distance_as_param seg_point_ends)
  show "euclid p b < euclid p a"
    using L d by (simp add: euclid_def sq_dist_other_end [of p b a])
qed

lemma distance_degenerate: "get_distance_point_to_segment p a a = euclid p a"
  by (simp add: distance_as_param seg_point_degenerate)

text \<open>
  Claim C6. For every point \<open>p\<close> and endpoints \<open>a\<close>, \<open>b\<close>, the value of
  \<open>get_distance_point_to_segment\<close> is the shortest Euclidean distance from \<open>p\<close> to the
  segment: it is the distance to some point of the segment and no point of the segment is
  nearer. It is 0 for every point of the segment; when the foot of the perpendicular lies
  inside the segment it is the perpendicular offset, the distance to that foot, and the
  line from \<open>p\<close> to the foot is orthogonal to the segment; when the projection falls
  before \<open>a\<close> or past \<open>b\<close> it is the distance to that endpoint, which is the nearer one;
  and when \<open>a = b\<close> it is the distance from \<open>p\<close> to \<open>a\<close>.
\<close>

theorem distance_point_to_segment_shortest:
  "(\<exists>t::real. 0 \<le> t \<and> t \<le> 1
        \<and> get_distance_point_to_segment p a b = euclid p (seg_point a b t))
   \<and> (\<forall>t::real. 0 \<le> t \<and> t \<le> 1 \<longrightarrow>
          get_distance_point_to_segment p a b \<le> euclid p (seg_point a b t))
   \<and> (\<forall>t::real. 0 \<le> t \<and> t \<le> 1 \<longrightarrow>
          get_distance_point_to_segment (seg_point a b t) a b = 0)
   \<and> (a \<noteq> b \<and> 0 \<le> dot (vsub p a) (vsub b a)
          \<and> dot (vsub p a) (vsub b a) \<le> sum_sq (vsub b a) \<longrightarrow>
        get_distance_point_to_segment p a b
          = \<bar>cross (vsub b a) (vsub p a)\<bar> / sqrt (sum_sq (vsub b a))
        \<and> get_distance_point_to_segment p a b
          = euclid p (seg_point a b (dot (vsub p a) (vsub b a) / sum_sq (vsub b a)))
        \<and> dot (vsub p (seg_point a b (dot (vsub p a) (vsub b a) / sum_sq (vsub b a))))
              (vsub b a) = 0)
   \<and> (a \<noteq> b \<and> dot (vsub p a) (vsub b a) < 0 \<longrightarrow>
        get_distance_point_to_segment p a b = euclid p a \<and> euclid p a < euclid p b)
   \<and> (a \<noteq> b \<and> sum_sq (vsub b a) < dot (vsub p a) (vsub b a) \<longrightarrow>
        get_distance_point_to_segment p a b = euclid p b \<and> euclid p b < euclid p a)
   \<and> (a = b \<longrightarrow> get_distance_point_to_segment p a b = euclid p a)"
proof (intro conjI allI impI)
  show "\<exists>t::real. 0 \<le> t \<and> t \<le> 1
        \<and> get_distance_point_to_segment p a b = euclid p (seg_point a b t)"
    using closest_param_range [of p a b] distance_as_param [of p a b] by blast
next
  fix t :: real assume "0 \<le> t \<and> t \<le> 1"
  then show "get_distance_point_to_segment p a b \<le> euclid p (seg_point a b t)"
    by (simp add: distance_minimal)
next
  fix t :: real assume "0 \<le> t \<and> t \<le> 1"
  then show "get_distance_point_to_segment (seg_point a b t) a b = 0"
    by (simp add: distance_on_segment)
next
  assume h: "a \<noteq> b \<and> 0 \<le> dot (vsub p a) (vsub b a)
          \<and> dot (vsub p a) (vsub b a) \<le> sum_sq (vsub b a)"
  then show "get_distance_point_to_segment p a b
          = \<bar>cross (vsub b a) (vsub p a)\<bar> / sqrt (sum_sq (vsub b a))"
    by (simp add: distance_foot_inside(2))
  from h show "get_distance_point_to_segment p a b
          = euclid p (seg_point a b (dot (vsub p a) (vsub b a) / sum_sq (vsub b a)))"
    using distance_foot_inside(1) [of a b p] by (simp add: distance_as_param)
  from h show "dot (vsub p (seg_point a b (dot (vsub p a) (vsub b a) / sum_sq (vsub b a))))
              (vsub b a) = 0"
    using distance_foot_inside(1,3) [of a b p] by simp
next
  assume h: "a \<noteq> b \<and> dot (vsub p a) (vsub b a) < 0"
  then show "get_distance_point_to_segment p a b = euclid p a"
    by (simp add: distance_before_start(1))
  from h show "euclid p a < euclid p b"
    by (simp add: distance_before_start(2))
next
  assume h: "a \<noteq> b \<and> sum_sq (vsub b a) < dot (vsub p a) (vsub b a)"
  then show "get_distance_point_to_segment p a b = euclid p b"
    by (simp add: distance_past_end(1))
  from h show "euclid p b < euclid p a"
    by (simp add: distance_past_end(2))
next
  assume "a = b"
  then show "get_distance_point_to_segment p a b = euclid p a"
    by (simp add: distance_degenerate)
qed

theorem distance_point_to_segment_shortest_witness:
  "(0::real) \<le> 1/2 \<and> (1/2::real) \<le> 1
   \<and> seg_point (0, 0) (10, 10) (1/2) = (5, 5)
   \<and> get_distance_point_to_segment (5, 5) (0, 0) (10, 10) = 0
   \<and> get_distance_point_to_segment (5, 0) (0, 5) (10, 5)
        \<le> euclid (5, 0) (seg_point (0, 5) (10, 5) (1/2))
   \<and> ((0, 5) :: point) \<noteq> (10, 5)
   \<and> 0 \<le> dot (vsub (5, 0) (0, 5)) (vsub (10, 5) (0, 5))
   \<and> dot (vsub (5, 0) (0, 5)) (vsub (10, 5) (0, 5)) \<le> sum_sq (vsub (10, 5) (0, 5))
   \<and> get_distance_point_to_segment (5, 0) (0, 5) (10, 5) = 5
   \<and> sum_sq (vsub (10, 5) (0, 5)) < dot (vsub (15, 5) (0, 5)) (vsub (10, 5) (0, 5))
   \<and> get_distance_point_to_segment (15, 5) (0, 5) (10, 5) = 5
   \<and> dot (vsub (-3, 1) (0, 5)) (vsub (10, 5) (0, 5)) < 0
   \<and> get_distance_point_to_segment (-3, 1) (0, 5) (10, 5) = 5
   \<and> get_distance_point_to_segment (3, 4) (0, 0) (0, 0) = 5"
proof -
  have half: "(0::real) \<le> 1/2 \<and> (1/2::real) \<le> 1" by simp
  have mid: "seg_point (0, 0) (10, 10) (1/2) = (5, 5)"
    by (simp add: seg_point_def)
  have on: "get_distance_point_to_segment (5, 5) (0, 0) (10, 10) = 0"
    using distance_point_to_segment_shortest [of "(5, 5)" "(0, 0)" "(10, 10)",
        THEN conjunct2, THEN conjunct2, THEN conjunct1, rule_format, OF half]
    by (simp only: mid)
  have le: "get_distance_point_to_segment (5, 0) (0, 5) (10, 5)
        \<le> euclid (5, 0) (seg_point (0, 5) (10, 5) (1/2))"
    using distance_point_to_segment_shortest [of "(5, 0)" "(0, 5)" "(10, 5)",
        THEN conjunct2, THEN conjunct1, rule_format, OF half] .
  have inside: "((0, 5) :: point) \<noteq> (10, 5)
      \<and> 0 \<le> dot (vsub (5, 0) (0, 5)) (vsub (10, 5) (0, 5))
      \<and> dot (vsub (5, 0) (0, 5)) (vsub (10, 5) (0, 5)) \<le> sum_sq (vsub (10, 5) (0, 5))"
    by simp
  have perp: "get_distance_point_to_segment (5, 0) (0, 5) (10, 5) = 5"
    using distance_point_to_segment_shortest [of "(5, 0)" "(0, 5)" "(10, 5)",
        THEN conjunct2, THEN conjunct2, THEN conjunct2, THEN conjunct1, rule_format,
        OF inside, THEN conjunct1]
    by simp
  have past: "((0, 5) :: point) \<noteq> (10, 5)
      \<and> sum_sq (vsub (10, 5) (0, 5)) < dot (vsub (15, 5) (0, 5)) (vsub (10, 5) (0, 5))"
    by simp
  have beyond: "get_distance_point_to_segment (15, 5) (0, 5) (10, 5) = 5"
    using distance_point_to_segment_shortest [of "(15, 5)" "(0, 5)" "(10, 5)",
        THEN conjunct2, THEN conjunct2, THEN conjunct2, THEN conjunct2, THEN conjunct2,
        THEN conjunct1, rule_format, OF past, THEN conjunct1]
    by (simp add: euclid_def)
  have before: "((0, 5) :: point) \<noteq> (10, 5)
      \<and> dot (vsub (-3, 1) (0, 5)) (vsub (10, 5) (0, 5)) < 0"
    by simp
  have behind: "get_distance_point_to_segment (-3, 1) (0, 5) (10, 5) = 5"
    using distance_point_to_segment_shortest [of "(-3, 1)" "(0, 5)" "(10, 5)",
        THEN conjunct2, THEN conjunct2, THEN conjunct2, THEN conjunct2,
        THEN conjunct1, rule_format, OF before, THEN conjunct1]
    by (simp add: euclid_def)
  have same: "get_distance_point_to_segment (3, 4) (0, 0) (0, 0) = 5"
    using distance_point_to_segment_shortest [of "(3, 4)" "(0, 0)" "(0, 0)",
        THEN conjunct2, THEN conjunct2, THEN conjunct2, THEN conjunct2, THEN conjunct2,
        THEN conjunct2, rule_format, OF refl]
    by (simp add: euclid_def)
  show ?thesis
    using half mid on le inside perp past beyond before behind same by simp
qed

section \<open>The match simulator\<close>

text \<open>The action handling never raises; a pass is decided by the interception scan.\<close>

lemma handle_action_pass:
  "handle_action s d ''PASS'' (Some t) =
     (case snd (check_interception (ball s) t (players (team_of s d)) 2) of
        None \<Rightarrow> Inr (s\<lparr>ball := t\<rparr>, Some SUCCESS, None)
      | Some p \<Rightarrow> Inr (s\<lparr>possession_team := d, ball := position p\<rparr>,
                       Some INTERCEPTED, Some (name p)))"
  by (simp add: handle_action_def check_interception_find split: option.splits)


lemma handle_action_total:
  "\<exists>s1 res icp. handle_action s d act target_pos = Inr (s1, res, icp)"
proof (cases "act = ''PASS'' \<and> target_pos \<noteq> None")
  case True
  then obtain t where "target_pos = Some t" by auto
  with True show ?thesis
    by (simp add: handle_action_pass split: option.splits)
next
  case False
  then show ?thesis by (auto simp: handle_action_def)
qed

lemma simulate_step_decompose:
  assumes "handle_action s (defending_team_of s) act target_pos = Inr (s1, res, icp)"
    and "boundary_check s1 (defending_team_of s) g = (s3, g3, sp)"
  shows "\<exists>ev. simulate_step s g act target_pos = Inr (ev, s3\<lparr>events := events s3 @ [ev]\<rparr>, g3)
     \<and> action ev = act \<and> result ev = res \<and> interceptor ev = icp \<and> set_piece ev = sp
     \<and> ball_pos_before ev = ball s \<and> ball_pos_after ev = ball s3
     \<and> event_game_state ev = game_state s
     \<and> possession_before ev = team_name (team_of s (possession_team s))
     \<and> possession_after ev = team_name (team_of s3 (possession_team s3))"
  using assms by (simp add: simulate_step_def Let_def)

lemma boundary_check_open_play:
  assumes "in_play (ball s1)"
  shows "boundary_check s1 d g = (s1\<lparr>game_state := OPEN_PLAY\<rparr>, g, None)"
  using assms by (simp add: boundary_check_def check_boundaries_def in_play_def)

lemma check_boundaries_open_play_iff:
  "fst (check_boundaries (fst p) (snd p) g) = OPEN_PLAY \<longleftrightarrow> in_play p"
  by (auto simp: check_boundaries_def in_play_def random_def)

lemma set_players_frame:
  "possession_team (set_players s r ps) = possession_team s"
  "events (set_players s r ps) = events s"
  "ball (set_players s r ps) = ball s"
  "game_state (set_players s r ps) = game_state s"
  by (cases r; simp add: set_players_def)+

lemma resolve_set_piece_frame:
  assumes "resolve_set_piece st att d s g = (bp, s2, g2)"
  shows "possession_team s2 = possession_team s \<and> events s2 = events s"
  using assms
  by (auto simp: resolve_set_piece_def Let_def set_players_frame split: if_splits prod.splits)

lemma boundary_check_frame:
  assumes "boundary_check s1 d g = (s3, g3, sp)"
  shows "possession_team s3 = possession_team s1 \<and> events s3 = events s1"
  using assms
  by (auto simp: boundary_check_def split: prod.splits if_splits dest: resolve_set_piece_frame)

lemma boundary_check_throw_in:
  assumes "fst (check_boundaries (fst (ball s1)) (snd (ball s1)) g) = THROW_IN"
  shows "boundary_check s1 d g =
           (s1\<lparr>ball := (0, 0), game_state := THROW_IN\<rparr>,
            snd (check_boundaries (fst (ball s1)) (snd (ball s1)) g), Some THROW_IN)"
proof -
  obtain g1 where "check_boundaries (fst (ball s1)) (snd (ball s1)) g = (THROW_IN, g1)"
    using assms by (cases "check_boundaries (fst (ball s1)) (snd (ball s1)) g") simp
  then show ?thesis
    by (simp add: boundary_check_def resolve_set_piece_def)
qed

lemma resolve_set_piece_in_play:
  assumes "resolve_set_piece st att d s g = (bp, s2, g2)"
  shows "in_play bp"
  using assms
  by (auto simp: resolve_set_piece_def Let_def in_play_def split: if_splits prod.splits)

lemma boundary_check_in_play:
  assumes "boundary_check s1 d g = (s3, g3, sp)"
  shows "in_play (ball s3)"
proof (cases "fst (check_boundaries (fst (ball s1)) (snd (ball s1)) g) = OPEN_PLAY")
  case True
  then have "in_play (ball s1)" by (simp add: check_boundaries_open_play_iff)
  then show ?thesis
    using boundary_check_open_play [of s1 d g] assms by auto
next
  case False
  then show ?thesis
    using assms
    by (auto simp: boundary_check_def split: prod.splits dest: resolve_set_piece_in_play)
qed


subsection \<open>Reset\<close>

text \<open>
  Claim C9. In every simulator state, \<open>reset\<close> puts the ball at the centre \<open>(52.5, 34)\<close>,
  gives possession to the home team, sets the game state to \<open>OPEN_PLAY\<close> and empties the
  log that \<open>get_training_data\<close> returns; both teams, and with them the position of every
  player, are unchanged.
\<close>

theorem reset_restores_defaults:
  "ball (reset s) = (52.5, 34.0)
   \<and> possession_team (reset s) = HomeTeam
   \<and> team_of (reset s) (possession_team (reset s)) = home_team s
   \<and> game_state (reset s) = OPEN_PLAY
   \<and> get_training_data (reset s) = []
   \<and> home_team (reset s) = home_team s
   \<and> away_team (reset s) = away_team s
   \<and> map position (players (home_team (reset s))) = map position (players (home_team s))
   \<and> map position (players (away_team (reset s))) = map position (players (away_team s))"
  by (simp add: reset_def get_training_data_def team_of_def)

subsection \<open>Passes\<close>

lemma sqrt_less_two: "sqrt x < 2 \<longleftrightarrow> x < 4"
  using real_sqrt_less_iff [of x 4] by simp

lemma defending_team_of_distinct:
  assumes "home_team s \<noteq> away_team s"
  shows "defending_team_of s \<noteq> possession_team s"
  using assms by (cases "possession_team s") (auto simp: defending_team_of_def team_of_def)


lemmas scenario_defs = staged_simulator_def test_simulator_def unopposed_simulator_def MatchSimulator_def
  test_home_def test_away_def empty_away_def

lemmas step_defs = simulate_step_def handle_action_def boundary_check_def
  check_boundaries_def resolve_set_piece_def defending_team_of_def team_of_def set_players_def
  random_def uniform_def get_distance_point_to_segment_def clip_def
  event_of_def simulator_of_def Let_def







subsection \<open>Throw-ins\<close>

text \<open>
  Claim C4 says that a step whose boundary check answers \<open>THROW_IN\<close> leaves the ball where
  the action put it. In the code \<open>resolve_set_piece\<close> has no branch for \<open>THROW_IN\<close> and
  returns the position it was initialised with, \<^verbatim>\<open>[0, 0]\<close>, which \<open>simulate_step\<close> assigns
  to the ball: a successful pass from \<open>(40, 34)\<close> to \<open>(40, 75)\<close> ends with the ball at the
  origin.
\<close>

theorem throw_in_sends_ball_to_origin:
  "handle_action test_simulator (defending_team_of test_simulator) ''PASS'' (Some (40, 75))
     = Inr (test_simulator\<lparr>ball := (40, 75)\<rparr>, Some SUCCESS, None)
   \<and> fst (check_boundaries 40 75 (sconst (1/4))) = THROW_IN
   \<and> \<not> isl (simulate_step test_simulator (sconst (1/4)) ''PASS'' (Some (40, 75)))
   \<and> set_piece (event_of (simulate_step test_simulator (sconst (1/4)) ''PASS'' (Some (40, 75))))
       = Some THROW_IN
   \<and> ball_pos_after
        (event_of (simulate_step test_simulator (sconst (1/4)) ''PASS'' (Some (40, 75))))
       = (0, 0)
   \<and> ball (simulator_of (simulate_step test_simulator (sconst (1/4)) ''PASS'' (Some (40, 75))))
       = (0, 0)"
  by (simp add: scenario_defs step_defs sqrt_less_two)

lemma throw_in_ball_at_origin:
  assumes "handle_action s (defending_team_of s) act target_pos = Inr (s1, res, icp)"
    and "fst (check_boundaries (fst (ball s1)) (snd (ball s1)) g) = THROW_IN"
  shows "\<exists>ev s' g'. simulate_step s g act target_pos = Inr (ev, s', g')
     \<and> set_piece ev = Some THROW_IN \<and> ball s' = (0, 0) \<and> ball_pos_after ev = (0, 0)"
  using simulate_step_decompose [OF assms(1) boundary_check_throw_in [OF assms(2)]]
  by auto

subsection \<open>Actions that do nothing\<close>




subsection \<open>An empty defending roster\<close>




subsection \<open>The ball stays inside the pitch\<close>

text \<open>
  Every step ends with the ball inside the pitch, so a simulator reached from its
  construction by steps and resets alone always has the ball inside the pitch.
\<close>

lemma simulate_step_ball_in_play:
  assumes "simulate_step s g act target_pos = Inr (ev, s', g')"
  shows "in_play (ball s')"
proof -
  obtain s1 res icp where h: "handle_action s (defending_team_of s) act target_pos = Inr (s1, res, icp)"
    using handle_action_total by blast
  obtain s3 g3 sp where b: "boundary_check s1 (defending_team_of s) g = (s3, g3, sp)"
    by (cases "boundary_check s1 (defending_team_of s) g") auto
  have "ball s' = ball s3"
    using simulate_step_decompose [OF h b] assms by auto
  then show ?thesis
    using boundary_check_in_play [OF b] by simp
qed

lemma reachable_ball_in_play: "reachable s \<Longrightarrow> in_play (ball s)"
proof (induction rule: reachable.induct)
  case (init home away)
  show ?case by (simp add: MatchSimulator_def in_play_def)
next
  case (step s g act target_pos ev s' g')
  then show ?case by (auto dest: simulate_step_ball_in_play)
next
  case (reset s)
  show ?case by (simp add: reset_def in_play_def)
qed

subsection \<open>Corners and goal kicks\<close>

lemma valid_rng_stl: "valid_rng g \<Longrightarrow> valid_rng (stl g)"
  by (auto simp: valid_rng_def dest: stl_sset)

lemma valid_rng_shd: "valid_rng g \<Longrightarrow> 0 \<le> shd g \<and> shd g < 1"
  using shd_sset [of g] by (auto simp: valid_rng_def)

lemma uniform_range:
  assumes "valid_rng g" and "lo \<le> hi" and "uniform lo hi g = (x, g')"
  shows "lo \<le> x \<and> x \<le> hi \<and> valid_rng g'"
proof -
  have u: "0 \<le> shd g" "shd g \<le> 1" using valid_rng_shd [OF assms(1)] by simp_all
  have x: "x = lo + (hi - lo) * shd g" and g': "g' = stl g"
    using assms(3) by (simp_all add: uniform_def)
  have "0 \<le> (hi - lo) * shd g" using u assms(2) by simp
  moreover have "(hi - lo) * shd g \<le> (hi - lo) * 1"
    using u assms(2) by (intro mult_left_mono) simp_all
  ultimately show ?thesis
    using x g' valid_rng_stl [OF assms(1)] by simp
qed

lemma scrambled_in_box:
  assumes "valid_rng g" and "uniform 95 104 g = (x, g1)" and "uniform 20 48 g1 = (y, g2)"
  shows "in_box (x, y) \<and> valid_rng g2"
proof -
  have a: "95 \<le> x \<and> x \<le> 104 \<and> valid_rng g1"
    using uniform_range [OF assms(1) _ assms(2)] by simp
  then have "20 \<le> y \<and> y \<le> 48 \<and> valid_rng g2"
    using uniform_range [OF _ _ assms(3)] by simp
  with a show ?thesis by (simp add: in_box_def)
qed

lemma scramble_attackers_props:
  assumes "valid_rng g" and "scramble_attackers ps g = (ps', g')"
  shows "valid_rng g' \<and> map name ps' = map name ps
     \<and> map position_role ps' = map position_role ps
     \<and> (\<forall>p \<in> set ps'. position_role p \<noteq> ''GK'' \<longrightarrow> in_box (position p))"
  using assms
proof (induction ps arbitrary: g ps' g')
  case Nil
  then show ?case by simp
next
  case (Cons p ps)
  show ?case
  proof (cases "position_role p \<noteq> ''GK''")
    case True
    obtain x g1 where u1: "uniform 95 104 g = (x, g1)" by (cases "uniform 95 104 g") auto
    obtain y g2 where u2: "uniform 20 48 g1 = (y, g2)" by (cases "uniform 20 48 g1") auto
    obtain qs g3 where r: "scramble_attackers ps g2 = (qs, g3)"
      by (cases "scramble_attackers ps g2") auto
    have box: "in_box (x, y) \<and> valid_rng g2"
      using scrambled_in_box [OF Cons.prems(1) u1 u2] .
    have eq: "ps' = p\<lparr>position := (x, y)\<rparr> # qs" "g' = g3"
      using Cons.prems(2) True u1 u2 r by simp_all
    show ?thesis
      using Cons.IH [OF _ r] box eq by simp
  next
    case False
    obtain qs g3 where r: "scramble_attackers ps g = (qs, g3)"
      by (cases "scramble_attackers ps g") auto
    have eq: "ps' = p # qs" "g' = g3"
      using Cons.prems(2) False r by simp_all
    show ?thesis
      using Cons.IH [OF Cons.prems(1) r] eq False by simp
  qed
qed

lemma scramble_defenders_props:
  assumes "valid_rng g" and "scramble_defenders ps g = (ps', g')"
  shows "valid_rng g' \<and> map name ps' = map name ps
     \<and> map position_role ps' = map position_role ps
     \<and> (\<forall>p \<in> set ps'. if position_role p = ''GK'' then position p = (104, 34)
                        else in_box (position p))"
  using assms
proof (induction ps arbitrary: g ps' g')
  case Nil
  then show ?case by simp
next
  case (Cons p ps)
  show ?case
  proof (cases "position_role p = ''GK''")
    case True
    obtain qs g3 where r: "scramble_defenders ps g = (qs, g3)"
      by (cases "scramble_defenders ps g") auto
    have eq: "ps' = p\<lparr>position := (104, 34)\<rparr> # qs" "g' = g3"
      using Cons.prems(2) True r by simp_all
    show ?thesis
      using Cons.IH [OF Cons.prems(1) r] eq True by simp
  next
    case False
    obtain x g1 where u1: "uniform 95 104 g = (x, g1)" by (cases "uniform 95 104 g") auto
    obtain y g2 where u2: "uniform 20 48 g1 = (y, g2)" by (cases "uniform 20 48 g1") auto
    obtain qs g3 where r: "scramble_defenders ps g2 = (qs, g3)"
      by (cases "scramble_defenders ps g2") auto
    have box: "in_box (x, y) \<and> valid_rng g2"
      using scrambled_in_box [OF Cons.prems(1) u1 u2] .
    have eq: "ps' = p\<lparr>position := (x, y)\<rparr> # qs" "g' = g3"
      using Cons.prems(2) False u1 u2 r by simp_all
    show ?thesis
      using Cons.IH [OF _ r] box eq False by simp
  qed
qed

lemma players_set_players:
  "players (team_of (set_players s r ps) r') = (if r' = r then ps else players (team_of s r'))"
  by (cases r; cases r'; simp add: set_players_def team_of_def)

lemma resolve_corner:
  assumes v: "valid_rng g" and r: "resolve_set_piece CORNER att d s g = (bp, s2, g2)"
  shows "fst bp = 105 \<and> (snd bp = 0 \<or> snd bp = 68)
     \<and> (\<forall>p \<in> set (players (team_of s2 d)).
           if position_role p = ''GK'' then position p = (104, 34) else in_box (position p))
     \<and> (\<forall>p \<in> set (players (team_of s2 att)).
           position_role p \<noteq> ''GK'' \<longrightarrow> in_box (position p))
     \<and> (\<forall>r. map name (players (team_of s2 r)) = map name (players (team_of s r))
           \<and> map position_role (players (team_of s2 r))
               = map position_role (players (team_of s r)))"
proof -
  let ?g1 = "stl g"
  obtain aps g2' where a: "scramble_attackers (players (team_of s att)) ?g1 = (aps, g2')"
    by (cases "scramble_attackers (players (team_of s att)) ?g1") auto
  let ?s1 = "set_players s att aps"
  obtain dps g3 where b: "scramble_defenders (players (team_of ?s1 d)) g2' = (dps, g3)"
    by (cases "scramble_defenders (players (team_of ?s1 d)) g2'") auto
  have res: "bp = (105, if shd g < 0.5 then 0 else 68)" "s2 = set_players ?s1 d dps"
    using r a b by (simp_all add: resolve_set_piece_def random_def Let_def)
  have pa: "valid_rng g2' \<and> map name aps = map name (players (team_of s att))
     \<and> map position_role aps = map position_role (players (team_of s att))
     \<and> (\<forall>p \<in> set aps. position_role p \<noteq> ''GK'' \<longrightarrow> in_box (position p))"
    using scramble_attackers_props [OF valid_rng_stl [OF v] a] .
  have pd: "map name dps = map name (players (team_of ?s1 d))
     \<and> map position_role dps = map position_role (players (team_of ?s1 d))
     \<and> (\<forall>p \<in> set dps. if position_role p = ''GK'' then position p = (104, 34)
                        else in_box (position p))"
    using scramble_defenders_props [OF _ b] pa by simp
  have ball: "fst bp = 105 \<and> (snd bp = 0 \<or> snd bp = 68)"
    by (simp add: res)
  have defs: "\<forall>p \<in> set (players (team_of s2 d)).
           if position_role p = ''GK'' then position p = (104, 34) else in_box (position p)"
    using pd by (simp add: res players_set_players)
  have atts: "\<forall>p \<in> set (players (team_of s2 att)).
           position_role p \<noteq> ''GK'' \<longrightarrow> in_box (position p)"
  proof (cases "att = d")
    case True
    then show ?thesis using pd by (auto simp: res players_set_players)
  next
    case False
    then show ?thesis using pa by (simp add: res players_set_players)
  qed
  have same: "map name (players (team_of s2 r)) = map name (players (team_of s r))
           \<and> map position_role (players (team_of s2 r))
               = map position_role (players (team_of s r))" for r
    using pa pd by (cases "r = d"; cases "r = att"; simp add: res players_set_players)
  show ?thesis
    using ball defs atts same by blast
qed

lemma handle_action_teams:
  assumes "handle_action s d act target_pos = Inr (s1, res, icp)"
  shows "home_team s1 = home_team s \<and> away_team s1 = away_team s"
  using assms
  by (auto simp: handle_action_def split: if_splits prod.splits option.splits)

lemma check_boundaries_rng:
  assumes "valid_rng g"
  shows "valid_rng (snd (check_boundaries x y g))"
  using assms valid_rng_stl [OF assms] by (simp add: check_boundaries_def random_def)

lemma team_of_frame:
  "team_of (s\<lparr>ball := bp, game_state := st\<rparr>) r = team_of s r"
  "team_of (s\<lparr>events := es\<rparr>) r = team_of s r"
  by (cases r; simp add: team_of_def)+

lemma boundary_check_corner:
  assumes v: "valid_rng g"
    and c: "fst (check_boundaries (fst (ball s1)) (snd (ball s1)) g) = CORNER"
    and b: "boundary_check s1 d g = (s3, g3, sp)"
  shows "fst (ball s3) = 105 \<and> (snd (ball s3) = 0 \<or> snd (ball s3) = 68)
     \<and> game_state s3 = CORNER \<and> sp = Some CORNER
     \<and> (\<forall>p \<in> set (players (team_of s3 d)).
           if position_role p = ''GK'' then position p = (104, 34) else in_box (position p))
     \<and> (\<forall>p \<in> set (players (team_of s3 (possession_team s1))).
           position_role p \<noteq> ''GK'' \<longrightarrow> in_box (position p))
     \<and> (\<forall>r. map name (players (team_of s3 r)) = map name (players (team_of s1 r))
           \<and> map position_role (players (team_of s3 r))
               = map position_role (players (team_of s1 r)))"
proof -
  obtain g1 where cb: "check_boundaries (fst (ball s1)) (snd (ball s1)) g = (CORNER, g1)"
    using c by (cases "check_boundaries (fst (ball s1)) (snd (ball s1)) g") simp
  have v1: "valid_rng g1"
    using check_boundaries_rng [OF v, of "fst (ball s1)" "snd (ball s1)"] cb by simp
  obtain bp s2 g2 where r: "resolve_set_piece CORNER (possession_team s1) d s1 g1 = (bp, s2, g2)"
    by (cases "resolve_set_piece CORNER (possession_team s1) d s1 g1") auto
  have s3: "s3 = s2\<lparr>ball := bp, game_state := CORNER\<rparr>" "sp = Some CORNER"
    using b cb r by (simp_all add: boundary_check_def)
  show ?thesis
    using resolve_corner [OF v1 r] by (simp add: s3 team_of_frame)
qed

lemma boundary_check_goal_kick:
  assumes c: "fst (check_boundaries (fst (ball s1)) (snd (ball s1)) g) = GOAL_KICK"
    and b: "boundary_check s1 d g = (s3, g3, sp)"
  shows "s3 = s1\<lparr>ball := (5, 34), game_state := GOAL_KICK\<rparr> \<and> sp = Some GOAL_KICK"
proof -
  obtain g1 where cb: "check_boundaries (fst (ball s1)) (snd (ball s1)) g = (GOAL_KICK, g1)"
    using c by (cases "check_boundaries (fst (ball s1)) (snd (ball s1)) g") simp
  show ?thesis
    using b cb by (simp add: boundary_check_def resolve_set_piece_def)
qed

text \<open>
  What the boundary check of a step does with the two teams that \<open>simulate_step\<close> hands
  to \<open>resolve_set_piece\<close>: the team in possession after the action as attackers, and the
  team that was defending before the action as defenders. Let the draws of the generator
  lie in \<open>[0, 1)\<close>. On \<open>CORNER\<close> the ball goes to \<open>(105, y)\<close> for \<open>y\<close> either 0 or 68,
  every goalkeeper of the team passed as defenders to \<open>(104, 34)\<close>, and every other player
  of that team and every player but the goalkeeper of the team passed as attackers into
  the box \<open>95 \<le> x \<le> 104\<close>, \<open>20 \<le> y \<le> 48\<close>; the rosters keep their names and roles. On
  \<open>GOAL_KICK\<close> the ball goes to \<open>(5, 34)\<close> and no player moves. In both cases the game
  state is the new state and the event's set piece records it.
\<close>

lemma set_piece_repositioning:
  assumes h: "handle_action s (defending_team_of s) act target_pos = Inr (s1, res, icp)"
    and v: "valid_rng g"
  shows "\<exists>ev s' g'.
      simulate_step s g act target_pos = Inr (ev, s', g')
    \<and> (fst (check_boundaries (fst (ball s1)) (snd (ball s1)) g) = CORNER \<longrightarrow>
          fst (ball s') = 105 \<and> (snd (ball s') = 0 \<or> snd (ball s') = 68)
        \<and> game_state s' = CORNER \<and> set_piece ev = Some CORNER
        \<and> ball_pos_after ev = ball s'
        \<and> (\<forall>p \<in> set (players (team_of s' (defending_team_of s))).
              if position_role p = ''GK'' then position p = (104, 34)
              else in_box (position p))
        \<and> (\<forall>p \<in> set (players (team_of s' (possession_team s1))).
              position_role p \<noteq> ''GK'' \<longrightarrow> in_box (position p))
        \<and> (\<forall>r. map name (players (team_of s' r)) = map name (players (team_of s r))
              \<and> map position_role (players (team_of s' r))
                  = map position_role (players (team_of s r))))
    \<and> (fst (check_boundaries (fst (ball s1)) (snd (ball s1)) g) = GOAL_KICK \<longrightarrow>
          ball s' = (5, 34) \<and> game_state s' = GOAL_KICK \<and> set_piece ev = Some GOAL_KICK
        \<and> ball_pos_after ev = (5, 34)
        \<and> home_team s' = home_team s \<and> away_team s' = away_team s)"
proof -
  let ?d = "defending_team_of s"
  obtain s3 g3 sp where b: "boundary_check s1 ?d g = (s3, g3, sp)"
    by (cases "boundary_check s1 ?d g") auto
  obtain ev where ev: "simulate_step s g act target_pos
        = Inr (ev, s3\<lparr>events := events s3 @ [ev]\<rparr>, g3)"
      "set_piece ev = sp" "ball_pos_after ev = ball s3"
    using simulate_step_decompose [OF h b] by blast
  have teams: "team_of s1 r = team_of s r" for r
    using handle_action_teams [OF h] by (cases r) (simp_all add: team_of_def)
  have corner: "fst (ball s3) = 105 \<and> (snd (ball s3) = 0 \<or> snd (ball s3) = 68)
     \<and> game_state s3 = CORNER \<and> sp = Some CORNER
     \<and> (\<forall>p \<in> set (players (team_of s3 ?d)).
           if position_role p = ''GK'' then position p = (104, 34) else in_box (position p))
     \<and> (\<forall>p \<in> set (players (team_of s3 (possession_team s1))).
           position_role p \<noteq> ''GK'' \<longrightarrow> in_box (position p))
     \<and> (\<forall>r. map name (players (team_of s3 r)) = map name (players (team_of s r))
           \<and> map position_role (players (team_of s3 r))
               = map position_role (players (team_of s r)))"
    if "fst (check_boundaries (fst (ball s1)) (snd (ball s1)) g) = CORNER"
    using boundary_check_corner [OF v that b] by (simp add: teams)
  have goal_kick: "s3 = s1\<lparr>ball := (5, 34), game_state := GOAL_KICK\<rparr> \<and> sp = Some GOAL_KICK"
    if "fst (check_boundaries (fst (ball s1)) (snd (ball s1)) g) = GOAL_KICK"
    using boundary_check_goal_kick [OF that b] .
  show ?thesis
    apply (rule exI [of _ ev])
    apply (rule exI [of _ "s3\<lparr>events := events s3 @ [ev]\<rparr>"])
    apply (rule exI [of _ g3])
    apply (intro conjI impI)
    subgoal by (rule ev(1))
    subgoal using corner ev by (simp add: team_of_frame)
    subgoal using corner ev by (simp add: team_of_frame)
    subgoal using corner ev by (simp add: team_of_frame)
    subgoal using corner ev by (simp add: team_of_frame)
    subgoal using corner ev by (simp add: team_of_frame)
    subgoal using corner ev by (simp add: team_of_frame)
    subgoal using corner ev by (simp add: team_of_frame)
    subgoal using corner ev by (simp add: team_of_frame)
    subgoal using goal_kick ev by simp
    subgoal using goal_kick ev by simp
    subgoal using goal_kick ev by simp
    subgoal using goal_kick ev by simp
    subgoal using goal_kick ev handle_action_teams [OF h] by simp
    subgoal using goal_kick ev handle_action_teams [OF h] by simp
    done
qed

lemma valid_rng_sconst: "0 \<le> u \<Longrightarrow> u < 1 \<Longrightarrow> valid_rng (sconst u)"
  by (simp add: valid_rng_def)

lemma corner_shot:
  "handle_action corner_simulator (defending_team_of corner_simulator) ''SHOOT'' (Some (110, 34))
     = Inr (corner_simulator\<lparr>ball := (110, 34)\<rparr>, Some SHOT, None)"
  by (simp add: handle_action_def)

lemma corner_refs:
  "defending_team_of corner_simulator = AwayTeam"
  "possession_team corner_simulator = HomeTeam"
  by (simp_all add: corner_simulator_def corner_home_def corner_away_def MatchSimulator_def
      defending_team_of_def team_of_def)

lemma set_piece_repositioning_example:
  "valid_rng (sconst (3/4))
   \<and> handle_action corner_simulator (defending_team_of corner_simulator) ''SHOOT''
         (Some (110, 34))
       = Inr (corner_simulator\<lparr>ball := (110, 34)\<rparr>, Some SHOT, None)
   \<and> fst (check_boundaries 110 34 (sconst (3/4))) = CORNER
   \<and> fst (ball (simulator_of
         (simulate_step corner_simulator (sconst (3/4)) ''SHOOT'' (Some (110, 34))))) = 105
   \<and> game_state (simulator_of
         (simulate_step corner_simulator (sconst (3/4)) ''SHOOT'' (Some (110, 34)))) = CORNER
   \<and> set_piece (event_of
         (simulate_step corner_simulator (sconst (3/4)) ''SHOOT'' (Some (110, 34))))
       = Some CORNER
   \<and> map position_role (players (away_team (simulator_of
         (simulate_step corner_simulator (sconst (3/4)) ''SHOOT'' (Some (110, 34))))))
       = [''GK'', ''DEF'']
   \<and> list_all (\<lambda>p. if position_role p = ''GK'' then position p = (104, 34)
                     else in_box (position p))
        (players (away_team (simulator_of
           (simulate_step corner_simulator (sconst (3/4)) ''SHOOT'' (Some (110, 34))))))
   \<and> map position_role (players (home_team (simulator_of
         (simulate_step corner_simulator (sconst (3/4)) ''SHOOT'' (Some (110, 34))))))
       = [''GK'', ''FWD'']
   \<and> list_all (\<lambda>p. position_role p = ''GK'' \<or> in_box (position p))
        (players (home_team (simulator_of
           (simulate_step corner_simulator (sconst (3/4)) ''SHOOT'' (Some (110, 34))))))
   \<and> valid_rng (sconst (1/4))
   \<and> fst (check_boundaries 110 34 (sconst (1/4))) = GOAL_KICK
   \<and> ball (simulator_of
         (simulate_step corner_simulator (sconst (1/4)) ''SHOOT'' (Some (110, 34)))) = (5, 34)
   \<and> game_state (simulator_of
         (simulate_step corner_simulator (sconst (1/4)) ''SHOOT'' (Some (110, 34)))) = GOAL_KICK"
proof -
  have v1: "valid_rng (sconst (3/4))" and v2: "valid_rng (sconst (1/4))"
    by (simp_all add: valid_rng_sconst)
  have c1: "fst (check_boundaries 110 34 (sconst (3/4))) = CORNER"
    and c2: "fst (check_boundaries 110 34 (sconst (1/4))) = GOAL_KICK"
    by (simp_all add: check_boundaries_def random_def)
  have roles: "map position_role (players (team_of corner_simulator AwayTeam)) = [''GK'', ''DEF'']"
      "map position_role (players (team_of corner_simulator HomeTeam)) = [''GK'', ''FWD'']"
    by (simp_all add: corner_simulator_def corner_home_def corner_away_def MatchSimulator_def
        team_of_def)
  obtain ev s' g' where a:
      "simulate_step corner_simulator (sconst (3/4)) ''SHOOT'' (Some (110, 34)) = Inr (ev, s', g')"
      "fst (ball s') = 105" "game_state s' = CORNER" "set_piece ev = Some CORNER"
      "\<forall>p \<in> set (players (team_of s' AwayTeam)).
          if position_role p = ''GK'' then position p = (104, 34) else in_box (position p)"
      "\<forall>p \<in> set (players (team_of s' HomeTeam)).
          position_role p \<noteq> ''GK'' \<longrightarrow> in_box (position p)"
      "\<forall>r. map position_role (players (team_of s' r))
            = map position_role (players (team_of corner_simulator r))"
    using set_piece_repositioning [OF corner_shot v1] c1
    by (auto simp: corner_refs)
  obtain ev2 s2 g2 where b:
      "simulate_step corner_simulator (sconst (1/4)) ''SHOOT'' (Some (110, 34)) = Inr (ev2, s2, g2)"
      "ball s2 = (5, 34)" "game_state s2 = GOAL_KICK"
    using set_piece_repositioning [OF corner_shot v2] c2
    by auto
  have away: "list_all (\<lambda>p. if position_role p = ''GK'' then position p = (104, 34)
                     else in_box (position p)) (players (away_team s'))"
    using a(5) by (simp add: list_all_iff team_of_def)
  have home: "list_all (\<lambda>p. position_role p = ''GK'' \<or> in_box (position p))
      (players (home_team s'))"
    using a(6) by (auto simp: list_all_iff team_of_def)
  have r1: "map position_role (players (away_team s')) = [''GK'', ''DEF'']"
    using a(7) [rule_format, of AwayTeam] roles by (simp add: team_of_def)
  have r2: "map position_role (players (home_team s')) = [''GK'', ''FWD'']"
    using a(7) [rule_format, of HomeTeam] roles by (simp add: team_of_def)
  show ?thesis
    using v1 v2 c1 c2 corner_shot a(1-4) b away home r1 r2
    by (simp add: event_of_def simulator_of_def)
qed

lemma corner_scenario_positions:
  "map position (players (away_team (simulator_of
      (simulate_step corner_simulator (sconst (3/4)) ''SHOOT'' (Some (110, 34))))))
     = [(104, 34), (407/4, 41)]
   \<and> map position (players (home_team (simulator_of
      (simulate_step corner_simulator (sconst (3/4)) ''SHOOT'' (Some (110, 34))))))
     = [(5, 34), (407/4, 41)]
   \<and> ball (simulator_of
      (simulate_step corner_simulator (sconst (3/4)) ''SHOOT'' (Some (110, 34)))) = (105, 68)"
  by (simp add: corner_simulator_def corner_home_def corner_away_def MatchSimulator_def
      step_defs)

lemma handle_action_possession:
  assumes "handle_action s d act target_pos = Inr (s1, res, icp)"
    and "res \<noteq> Some INTERCEPTED"
  shows "possession_team s1 = possession_team s"
  using assms
  by (auto simp: handle_action_def split: if_splits prod.splits option.splits)

text \<open>
  When the action is not an intercepted pass, possession is what it was before the action,
  so for two different teams the corner repositions the team in possession and its
  opponents.
\<close>

lemma set_piece_opposing_teams:
  assumes h: "handle_action s (defending_team_of s) act target_pos = Inr (s1, res, icp)"
    and v: "valid_rng g"
    and n: "res \<noteq> Some INTERCEPTED"
    and t: "home_team s \<noteq> away_team s"
    and c: "fst (check_boundaries (fst (ball s1)) (snd (ball s1)) g) = CORNER"
  shows "\<exists>ev s' g'.
      simulate_step s g act target_pos = Inr (ev, s', g')
    \<and> defending_team_of s \<noteq> possession_team s
    \<and> possession_team s' = possession_team s
    \<and> (\<forall>p \<in> set (players (team_of s' (defending_team_of s))).
          if position_role p = ''GK'' then position p = (104, 34)
          else in_box (position p))
    \<and> (\<forall>p \<in> set (players (team_of s' (possession_team s))).
          position_role p \<noteq> ''GK'' \<longrightarrow> in_box (position p))"
proof -
  have p: "possession_team s1 = possession_team s"
    by (rule handle_action_possession [OF h n])
  obtain ev s' g' where a:
      "simulate_step s g act target_pos = Inr (ev, s', g')"
      "\<forall>p \<in> set (players (team_of s' (defending_team_of s))).
          if position_role p = ''GK'' then position p = (104, 34) else in_box (position p)"
      "\<forall>p \<in> set (players (team_of s' (possession_team s1))).
          position_role p \<noteq> ''GK'' \<longrightarrow> in_box (position p)"
    using set_piece_repositioning [OF h v] c by blast
  obtain s3 g3 sp where b: "boundary_check s1 (defending_team_of s) g = (s3, g3, sp)"
    by (cases "boundary_check s1 (defending_team_of s) g") auto
  have "possession_team s' = possession_team s3"
    using simulate_step_decompose [OF h b] a(1) by auto
  then have q: "possession_team s' = possession_team s"
    using boundary_check_frame [OF b] p by simp
  show ?thesis
    using a q p defending_team_of_distinct [OF t] by auto
qed

text \<open>
  Claim C5 says that on \<open>CORNER\<close> the defending goalkeeper is placed at \<open>(104, 34)\<close> and
  every attacking and every defending player who is not a goalkeeper ends inside the box.
  After an intercepted pass the code does not do that. The interception gives possession
  to the defending team, and \<open>simulate_step\<close> then calls \<open>resolve_set_piece\<close> with the
  new \<open>possession_team\<close> and the \<open>defending_team\<close> it computed before the action: the same
  team twice. When the interceptor stands outside the pitch the corner repositions that
  team only. Home passes from \<open>(40, 34)\<close> to \<open>(0, 34)\<close>; the sweeper of Away at \<open>(-1, 34)\<close>
  intercepts, the ball at \<open>(-1, 34)\<close> is a corner, Away's goalkeeper and sweeper are
  repositioned, and Home's players stay at \<open>(5, 34)\<close> and \<open>(60, 30)\<close>, outside the box.
\<close>

theorem intercepted_pass_corner_leaves_opponents:
  "handle_action sweeper_simulator (defending_team_of sweeper_simulator) ''PASS'' (Some (0, 34))
     = Inr (sweeper_simulator\<lparr>possession_team := AwayTeam, ball := (-1, 34)\<rparr>,
            Some INTERCEPTED, Some ''Sweeper'')
   \<and> check_boundaries (-1) 34 (sconst (1/4)) = (CORNER, sconst (1/4))
   \<and> \<not> isl (simulate_step sweeper_simulator (sconst (1/4)) ''PASS'' (Some (0, 34)))
   \<and> result (event_of (simulate_step sweeper_simulator (sconst (1/4)) ''PASS'' (Some (0, 34))))
       = Some INTERCEPTED
   \<and> set_piece (event_of (simulate_step sweeper_simulator (sconst (1/4)) ''PASS'' (Some (0, 34))))
       = Some CORNER
   \<and> possession_team
        (simulator_of (simulate_step sweeper_simulator (sconst (1/4)) ''PASS'' (Some (0, 34))))
       = AwayTeam
   \<and> ball (simulator_of (simulate_step sweeper_simulator (sconst (1/4)) ''PASS'' (Some (0, 34))))
       = (105, 0)
   \<and> map position (players (away_team
        (simulator_of (simulate_step sweeper_simulator (sconst (1/4)) ''PASS'' (Some (0, 34))))))
       = [(104, 34), (389/4, 27)]
   \<and> home_team
        (simulator_of (simulate_step sweeper_simulator (sconst (1/4)) ''PASS'' (Some (0, 34))))
       = corner_home
   \<and> map position (players corner_home) = [(5, 34), (60, 30)]
   \<and> map position_role (players corner_home) = [''GK'', ''FWD'']
   \<and> \<not> in_box (60, 30)"
  by (simp add: sweeper_simulator_def sweeper_away_def corner_home_def MatchSimulator_def
      step_defs scramble_attackers.simps scramble_defenders.simps sqrt_less_two in_box_def)

end
